theory Spec2Isabelle
  imports Main "HOL-Library.Sublist"
begin

section \<open>Strings and the Go standard library functions the package calls\<close>

text \<open>
  A Go string is a sequence of bytes, modelled as \<^typ>\<open>string\<close>. The functions of this
  section are the library functions \<^verbatim>\<open>request.go\<close> calls, written after the Go
  library's behaviour on a Unix system (path separator \<^verbatim>\<open>/\<close>, no volume names).
\<close>

text \<open>
  \<^verbatim>\<open>strings.Contains(s, substr)\<close>: \<open>substr\<close> occurs within \<open>s\<close>.
\<close>

fun Contains :: "string \<Rightarrow> string \<Rightarrow> bool" where
  "Contains [] substr = (substr = [])"
| "Contains (c # cs) substr = (prefix substr (c # cs) \<or> Contains cs substr)"

text \<open>
  \<^verbatim>\<open>strings.ToLower\<close> on ASCII text: the letters \<^verbatim>\<open>A\<close> to \<^verbatim>\<open>Z\<close> (bytes 65 to 90)
  get bit 5 set, every other byte stays. (Go also lower-cases letters beyond ASCII; the
  model leaves the bytes of such a letter as they are.)
\<close>

definition isUpper :: "char \<Rightarrow> bool" where
  "isUpper c = ((65::nat) \<le> of_char c \<and> of_char c \<le> (90::nat))"

fun setBit5 :: "char \<Rightarrow> char" where
  "setBit5 (Char b0 b1 b2 b3 b4 b5 b6 b7) = Char b0 b1 b2 b3 b4 True b6 b7"

definition lower_byte :: "char \<Rightarrow> char" where
  "lower_byte c = (if isUpper c then setBit5 c else c)"

definition ToLower :: "string \<Rightarrow> string" where
  "ToLower s = map lower_byte s"

text \<open>
  \<^verbatim>\<open>filepath.Ext(path)\<close>: the suffix beginning at the final dot in the final element
  of the path, empty when there is none. Go scans from the last byte towards the first and
  stops at a separator; \<open>ext_scan\<close> is that scan over the reversed path, collecting the
  bytes it has passed.
\<close>

fun ext_scan :: "string \<Rightarrow> string \<Rightarrow> string" where
  "ext_scan [] acc = []"
| "ext_scan (c # cs) acc =
     (if c = CHR ''/'' then []
      else if c = CHR ''.'' then c # acc
      else ext_scan cs (c # acc))"

definition Ext :: "string \<Rightarrow> string" where
  "Ext path = ext_scan (rev path) []"

text \<open>
  \<^verbatim>\<open>filepath.Clean\<close>: the path is cut into its elements at the separators; empty
  elements and \<^verbatim>\<open>.\<close> are dropped, \<^verbatim>\<open>..\<close> removes the element before it (it is
  dropped at the root, and kept at the start of a relative path); the empty result is
  \<^verbatim>\<open>.\<close>.
\<close>

fun split_sep :: "string \<Rightarrow> string \<Rightarrow> string list" where
  "split_sep [] cur = [rev cur]"
| "split_sep (c # cs) cur =
     (if c = CHR ''/'' then rev cur # split_sep cs [] else split_sep cs (c # cur))"

fun clean_elems :: "bool \<Rightarrow> string list \<Rightarrow> string list \<Rightarrow> string list" where
  "clean_elems rooted [] out = rev out"
| "clean_elems rooted (e # es) out =
     (if e = [] \<or> e = ''.'' then clean_elems rooted es out
      else if e = ''..'' then
        (case out of
           [] \<Rightarrow> if rooted then clean_elems rooted es [] else clean_elems rooted es [e]
         | p # ps \<Rightarrow> if p = ''..'' then clean_elems rooted es (e # out)
                     else clean_elems rooted es ps)
      else clean_elems rooted es (e # out))"

fun join_sep :: "string list \<Rightarrow> string" where
  "join_sep [] = []"
| "join_sep [e] = e"
| "join_sep (e # es) = e @ CHR ''/'' # join_sep es"

definition Clean :: "string \<Rightarrow> string" where
  "Clean path =
     (if path = [] then ''.''
      else
        let rooted = (hd path = CHR ''/'');
            body = join_sep (clean_elems rooted (split_sep path []) [])
        in if rooted then CHR ''/'' # body
           else if body = [] then ''.'' else body)"

text \<open>
  \<^verbatim>\<open>filepath.Join(a, b)\<close>: the elements from the first non-empty one on, joined with
  separators and cleaned; the empty string when both are empty.
\<close>

definition Join :: "string \<Rightarrow> string \<Rightarrow> string" where
  "Join a b =
     (if a \<noteq> [] then Clean (a @ CHR ''/'' # b)
      else if b \<noteq> [] then Clean b
      else [])"

text \<open>
  \<^verbatim>\<open>filepath.Dir(path)\<close>: the path up to its last separator, cleaned.
\<close>

definition Dir :: "string \<Rightarrow> string" where
  "Dir path = Clean (rev (dropWhile (\<lambda>c. c \<noteq> CHR ''/'') (rev path)))"

datatype error =
    InvalidRequest string
  | EscapeError string
  | TransportError string
  | IOError string

text \<open>
  \<^verbatim>\<open>url.PathUnescape\<close>: every \<^verbatim>\<open>%XY\<close> with two hexadecimal digits becomes the byte
  it encodes; a \<^verbatim>\<open>%\<close> not followed by two hexadecimal digits is an error. A \<^verbatim>\<open>+\<close>
  stays as it is.
\<close>

definition ishex :: "char \<Rightarrow> bool" where
  "ishex c = (let n = (of_char c :: nat) in
     (48 \<le> n \<and> n \<le> 57) \<or> (97 \<le> n \<and> n \<le> 102) \<or> (65 \<le> n \<and> n \<le> 70))"

definition unhex :: "char \<Rightarrow> nat" where
  "unhex c = (let n = (of_char c :: nat) in
     if 48 \<le> n \<and> n \<le> 57 then n - 48
     else if 97 \<le> n \<and> n \<le> 102 then n - 97 + 10
     else if 65 \<le> n \<and> n \<le> 70 then n - 65 + 10
     else 0)"

fun PathUnescape :: "string \<Rightarrow> error + string" where
  "PathUnescape [] = Inr []"
| "PathUnescape (c # cs) =
     (if c = CHR ''%'' then
        (case cs of
           h1 # h2 # rest \<Rightarrow>
             if ishex h1 \<and> ishex h2 then
               (case PathUnescape rest of
                  Inl e \<Rightarrow> Inl e
                | Inr t \<Rightarrow> Inr (char_of (unhex h1 * 16 + unhex h2) # t))
             else Inl (EscapeError (take 3 (c # cs)))
         | _ \<Rightarrow> Inl (EscapeError (take 3 (c # cs))))
      else
        (case PathUnescape cs of
           Inl e \<Rightarrow> Inl e
         | Inr t \<Rightarrow> Inr (c # t)))"

section \<open>The data of a request\<close>

text \<open>
  \<^verbatim>\<open>http.Cookie\<close>, with the fields the package reads or a caller sets.
\<close>

record cookie =
  Name :: string
  Value :: string
  Domain_c :: string

text \<open>
  \<^verbatim>\<open>url.Values\<close> is a \<^verbatim>\<open>map[string][]string\<close>; a key that is absent reads as the
  empty list, as indexing the Go map does. \<^verbatim>\<open>Values.Add\<close> appends the value to the
  key's list.
\<close>

type_synonym Values = "string \<Rightarrow> string list"

definition Add :: "Values \<Rightarrow> string \<Rightarrow> string \<Rightarrow> Values" where
  "Add v key val = v(key := v key @ [val])"

text \<open>
  The request that \<^verbatim>\<open>CallRequest\<close> builds. \<open>Cookies\<close> and \<open>Header\<close> list what
  \<^verbatim>\<open>AddCookie\<close> and \<^verbatim>\<open>Header.Add\<close> were called with, in the order of the calls.
  \<open>RawQuery\<close> is \<open>None\<close> while the query string is the one of the URL as given, and
  \<open>Some q\<close> once it was assigned \<^verbatim>\<open>q.Encode()\<close>.
\<close>

record request =
  Method :: string
  URL :: string
  Cookies :: "cookie list"
  Header :: "(string \<times> string) list"
  RawQuery :: "Values option"

text \<open>
  The response: its status, the URL of the request that produced it (the last one after
  redirects, \<^verbatim>\<open>res.Request.URL.String()\<close>) and the bytes of its body.
\<close>

record response =
  StatusCode :: int
  RequestURL :: string
  Body :: string

section \<open>What lies outside the package\<close>

text \<open>
  The constants of the \<^verbatim>\<open>utils\<close> package (\<open>RETRY_COUNTER\<close>, \<open>USER_AGENT\<close>), whose
  values are not part of the request package, and the behaviour of the network and of
  the operating system, are parameters of the model:
  \<^item> \<open>NewRequest_err method url\<close>: the error of \<^verbatim>\<open>http.NewRequest\<close>, if any;
  \<^item> \<open>URL_Query url\<close>: the parsed query of the URL, \<^verbatim>\<open>req.URL.Query()\<close>;
  \<^item> \<open>client_Do timeout n req\<close>: what \<^verbatim>\<open>client.Do(req)\<close> returns when \<open>n\<close> requests
    were sent before it: a transport error or a response;
  \<^item> \<open>os_Create path\<close>: the error of \<^verbatim>\<open>os.Create\<close>, if any;
  \<^item> \<open>io_Copy path body\<close>: \<open>None\<close> when \<^verbatim>\<open>io.Copy\<close> writes the whole body, and
    \<open>Some (n, e)\<close> when it fails with \<open>e\<close> after \<open>n\<close> bytes reached the file.
\<close>

record env =
  RETRY_COUNTER :: nat
  USER_AGENT :: string
  NewRequest_err :: "string \<Rightarrow> string \<Rightarrow> error option"
  URL_Query :: "string \<Rightarrow> Values"
  client_Do :: "int \<Rightarrow> nat \<Rightarrow> request \<Rightarrow> error + response"
  os_Create :: "string \<Rightarrow> error option"
  io_Copy :: "string \<Rightarrow> string \<Rightarrow> (nat \<times> error) option"

text \<open>
  The two messages the package formats, with the values they are formatted from:
  \<^verbatim>\<open>"failed to send a request to %s after %d retries"\<close> and
  \<^verbatim>\<open>"failed to download %s due to %v"\<close>.
\<close>

datatype message =
    FailedRequest string nat
  | FailedDownload string error

text \<open>
  Modelled from the spec: \<^verbatim>\<open>utils.LogError(err, msg, exit)\<close> is not among the files of
  the package; the spec has a logging sink that records a non-fatal error with a message
  and does not terminate the process. A log entry keeps the three arguments of the call.
\<close>

datatype log_entry = LogError "error option" message bool

text \<open>
  The state the package acts on: the files (path to content), the directories
  \<^verbatim>\<open>os.MkdirAll\<close> was asked for, the requests sent so far, the number of delays slept
  and the log.
\<close>

record world =
  files :: "string \<rightharpoonup> string"
  mkdirs :: "string list"
  sent :: "request list"
  slept :: nat
  logged :: "log_entry list"

definition MkdirAll :: "string \<Rightarrow> world \<Rightarrow> world" where
  "MkdirAll path w = w\<lparr>mkdirs := mkdirs w @ [path]\<rparr>"

section \<open>The helpers of the utils package\<close>

text \<open>
  Modelled from the spec: \<^verbatim>\<open>utils.GetLastPartOfURL\<close> is not among the files of the
  package; the spec derives the filename from the URL "by taking its last path segment",
  the text after the last \<^verbatim>\<open>/\<close>.
\<close>

definition GetLastPartOfURL :: "string \<Rightarrow> string" where
  "GetLastPartOfURL u = rev (takeWhile (\<lambda>c. c \<noteq> CHR ''/'') (rev u))"

text \<open>
  Modelled from the spec: \<^verbatim>\<open>utils.RemoveExtFromFilename\<close> is not among the files of
  the package; the spec has it strip "any existing extension suffix from the filename
  itself".
\<close>

definition RemoveExtFromFilename :: "string \<Rightarrow> string" where
  "RemoveExtFromFilename filename = take (length filename - length (Ext filename)) filename"

text \<open>
  Modelled from the spec: \<^verbatim>\<open>utils.CheckIfFileIsEmpty\<close> is not among the files of the
  package; by the spec a download is skipped "if a file already exists at the resolved
  path and is non-empty", so a path counts as empty when no file is there or the file has
  no bytes. The second component is the error of the call, which \<^verbatim>\<open>DownloadURL\<close>
  discards.
\<close>

definition CheckIfFileIsEmpty :: "string \<Rightarrow> world \<Rightarrow> bool \<times> error option" where
  "CheckIfFileIsEmpty path w =
     (case files w path of
        None \<Rightarrow> (True, None)
      | Some content \<Rightarrow> (content = [], None))"

section \<open>CallRequest\<close>

text \<open>
  Lines 22 to 49: the request as it is when the first attempt is sent. Go ranges over the
  maps \<open>additionalHeaders\<close> and \<open>params\<close> in no fixed order; they are given as lists of
  key and value, ranged over from the head.
\<close>

definition build_request ::
  "env \<Rightarrow> string \<Rightarrow> string \<Rightarrow> cookie list \<Rightarrow> (string \<times> string) list \<Rightarrow>
   (string \<times> string) list \<Rightarrow> request" where
  "build_request e method url cookies additionalHeaders params =
     \<lparr> Method = method,
       URL = url,
       Cookies = filter (\<lambda>cookie. Contains url (Domain_c cookie)) cookies,
       Header = additionalHeaders @ [(''User-Agent'', USER_AGENT e)],
       RawQuery =
         (if 0 < length params
          then Some (fold (\<lambda>(key, val) query. Add query key val) params (URL_Query e url))
          else None) \<rparr>"

text \<open>
  Lines 54 to 64: the loop, with \<open>n\<close> the number of iterations that remain. The response
  and the error of an attempt are variables of the loop body (\<^verbatim>\<open>resp, err := \<close>), so
  the loop hands on a response when an attempt succeeds and nothing otherwise.
\<close>

fun retry_loop ::
  "env \<Rightarrow> int \<Rightarrow> request \<Rightarrow> bool \<Rightarrow> nat \<Rightarrow> world \<Rightarrow> response option \<times> world" where
  "retry_loop e timeout req checkStatus 0 w = (None, w)"
| "retry_loop e timeout req checkStatus (Suc n) w =
     (let result = client_Do e timeout (length (sent w)) req;
          w1 = w\<lparr>sent := sent w @ [req]\<rparr>;
          w2 = w1\<lparr>slept := slept w1 + 1\<rparr>
      in case result of
           Inr resp \<Rightarrow>
             if \<not> checkStatus then (Some resp, w1)
             else if StatusCode resp = 200 then (Some resp, w1)
             else retry_loop e timeout req checkStatus n w2
         | Inl err \<Rightarrow> retry_loop e timeout req checkStatus n w2)"

text \<open>
  The whole function. Its result is Go's pair of a response and an error, each of which
  may be nil (\<open>None\<close>). After the loop the function logs and returns the variable \<open>err\<close>
  of line 22, which is nil there: line 23 has returned otherwise.
\<close>

definition CallRequest ::
  "env \<Rightarrow> string \<Rightarrow> string \<Rightarrow> int \<Rightarrow> cookie list \<Rightarrow> (string \<times> string) list \<Rightarrow>
   (string \<times> string) list \<Rightarrow> bool \<Rightarrow> world \<Rightarrow> (response option \<times> error option) \<times> world" where
  "CallRequest e method url timeout cookies additionalHeaders params checkStatus w =
     (case NewRequest_err e method url of
        Some err \<Rightarrow> ((None, Some err), w)
      | None \<Rightarrow>
          (let err = None;
               req = build_request e method url cookies additionalHeaders params
           in case retry_loop e timeout req checkStatus (RETRY_COUNTER e) w of
                (Some resp, w') \<Rightarrow> ((Some resp, None), w')
              | (None, w') \<Rightarrow>
                  ((None, err),
                   w'\<lparr>logged := logged w' @
                      [LogError err (FailedRequest url (RETRY_COUNTER e)) False]\<rparr>)))"

section \<open>DownloadURL\<close>

datatype panic =
    NilPointerDereference
  | PanicError error
  | MakeChanSizeOutOfRange

datatype 'a outcome = Returned 'a | Panicked panic

text \<open>
  Lines 85 to 99: the path of the file, from the destination and the response. The
  function panics when the URL of the response does not unescape.
\<close>

definition resolve_path :: "string \<Rightarrow> response \<Rightarrow> world \<Rightarrow> (panic + string) \<times> world" where
  "resolve_path filePath res w =
     (if Ext filePath = [] then
        (let w1 = MkdirAll filePath w
         in case PathUnescape (RequestURL res) of
              Inl err \<Rightarrow> (Inl (PanicError err), w1)
            | Inr unescaped \<Rightarrow>
                (let filename = GetLastPartOfURL unescaped;
                     filenameWithoutExt = RemoveExtFromFilename filename
                 in (Inr (Join filePath (filenameWithoutExt @ ToLower (Ext filename))), w1)))
      else
        (let filePathDir = Dir filePath;
             w1 = MkdirAll filePathDir w;
             filePathWithoutExt = RemoveExtFromFilename filePath
         in (Inr (filePathWithoutExt @ ToLower (Ext filePath)), w1)))"

text \<open>
  Lines 101 to 123: the check for a file that is already there, and the writing of the
  body. \<^verbatim>\<open>os.Create\<close> truncates the file; a failed copy leaves the bytes written so
  far in it until \<^verbatim>\<open>os.Remove\<close> deletes it.
\<close>

definition write_body ::
  "env \<Rightarrow> string \<Rightarrow> response \<Rightarrow> string \<Rightarrow> world \<Rightarrow> error option outcome \<times> world" where
  "write_body e fileURL res filePath w =
     (if \<not> fst (CheckIfFileIsEmpty filePath w) then (Returned None, w)
      else
        (case os_Create e filePath of
           Some err \<Rightarrow> (Panicked (PanicError err), w)
         | None \<Rightarrow>
             (let w1 = w\<lparr>files := (files w)(filePath \<mapsto> [])\<rparr>
              in case io_Copy e filePath (Body res) of
                   Some (n, err) \<Rightarrow>
                     (let w2 = w1\<lparr>files := (files w1)(filePath \<mapsto> take n (Body res))\<rparr>;
                          w3 = w2\<lparr>files := (files w2)(filePath := None)\<rparr>
                      in (Returned None,
                          w3\<lparr>logged := logged w3 @
                             [LogError (Some err) (FailedDownload fileURL err) False]\<rparr>))
                 | None \<Rightarrow>
                     (Returned None, w1\<lparr>files := (files w1)(filePath \<mapsto> Body res)\<rparr>))))"

text \<open>
  The whole function. When \<^verbatim>\<open>CallRequest\<close> returns neither a response nor an error,
  line 82 reads \<^verbatim>\<open>res.Body\<close> through the nil pointer \<open>res\<close>, which panics.
\<close>

definition DownloadURL ::
  "env \<Rightarrow> string \<Rightarrow> string \<Rightarrow> cookie list \<Rightarrow> (string \<times> string) list \<Rightarrow>
   (string \<times> string) list \<Rightarrow> world \<Rightarrow> error option outcome \<times> world" where
  "DownloadURL e fileURL filePath cookies headers params w =
     (let downloadTimeout = 25 * 60
      in case CallRequest e ''GET'' fileURL downloadTimeout cookies headers params True w of
           ((_, Some err), w1) \<Rightarrow> (Returned (Some err), w1)
         | ((None, None), w1) \<Rightarrow> (Panicked NilPointerDereference, w1)
         | ((Some res, None), w1) \<Rightarrow>
             (case resolve_path filePath res w1 of
                (Inl p, w2) \<Rightarrow> (Panicked p, w2)
              | (Inr path, w2) \<Rightarrow> write_body e fileURL res path w2))"

section \<open>DownloadURLsParallel\<close>

text \<open>
  Modelled from the spec: \<^verbatim>\<open>utils.GetProgressBar\<close> and the bar's \<^verbatim>\<open>Add\<close> are not
  among the files of the package; the spec has a progress sink with a total and a count
  of completed jobs, "set total" and "increment by one".
\<close>

record progress_bar =
  bar_total :: nat
  bar_count :: nat

definition GetProgressBar :: "nat \<Rightarrow> progress_bar" where
  "GetProgressBar n = \<lparr> bar_total = n, bar_count = 0 \<rparr>"

definition bar_Add :: "progress_bar \<Rightarrow> nat \<Rightarrow> progress_bar" where
  "bar_Add b n = b\<lparr>bar_count := bar_count b + n\<rparr>"

text \<open>
  A job is a \<^verbatim>\<open>map[string]string\<close>; indexing it with a key it does not have gives
  the empty string.
\<close>

definition index_map :: "(string \<times> string) list \<Rightarrow> string \<Rightarrow> string" where
  "index_map m key = (case map_of m key of None \<Rightarrow> [] | Some v \<Rightarrow> v)"

datatype run_status = Running | Finished | Crashed panic

text \<open>
  The state of a call: the jobs the loop of line 143 has not reached, the goroutines by
  the statement they are at (within \<^verbatim>\<open>DownloadURL\<close>, with its two arguments; before
  \<^verbatim>\<open>bar.Add(1)\<close>; before the receive from \<^verbatim>\<open>queue\<close>; before the deferred \<^verbatim>\<open>wg.Done()\<close>), the
  number of values in the channel and its capacity, the counter of the wait group, the
  progress bar, and the world the downloads act on.
\<close>

record pstate =
  pending :: "(string \<times> string) list list"
  fetching :: "(string \<times> string) list"
  ticking :: nat
  releasing :: nat
  finishing :: nat
  queue :: nat
  capacity :: int
  wg :: nat
  bar :: progress_bar
  the_world :: world
  status :: run_status

text \<open>
  Lines 130 to 142. \<^verbatim>\<open>make(chan struct{}, n)\<close> panics for a negative \<open>n\<close>.
\<close>

definition init_state :: "(string \<times> string) list list \<Rightarrow> int \<Rightarrow> world \<Rightarrow> pstate" where
  "init_state urls maxConcurrency w =
     (let maxConcurrency' =
            (if int (length urls) < maxConcurrency then int (length urls) else maxConcurrency)
      in \<lparr> pending = urls, fetching = [], ticking = 0, releasing = 0, finishing = 0,
           queue = 0, capacity = maxConcurrency', wg = 0,
           bar = GetProgressBar (length urls), the_world = w,
           status = (if maxConcurrency' < 0 then Crashed MakeChanSizeOutOfRange else Running) \<rparr>)"

text \<open>
  One step of the call, taken by the function itself (\<open>spawn\<close>: lines 144 to 151 for the
  next job, possible when the channel has room; \<open>wait_returns\<close>: line 154, possible when the
  loop is over and the wait group's counter is zero) or by one goroutine (lines 148 to
  150 and the deferred line 147). A download is one step; a download that panics ends
  the process.
\<close>

inductive step ::
  "env \<Rightarrow> cookie list \<Rightarrow> (string \<times> string) list \<Rightarrow> (string \<times> string) list \<Rightarrow>
   pstate \<Rightarrow> pstate \<Rightarrow> bool"
  for e :: env and cookies :: "cookie list"
    and headers :: "(string \<times> string) list" and params :: "(string \<times> string) list"
where
  spawn:
    "status s = Running \<Longrightarrow> pending s = url # rest \<Longrightarrow> int (queue s) < capacity s \<Longrightarrow>
     step e cookies headers params s
       (s\<lparr>pending := rest, wg := wg s + 1, queue := queue s + 1,
          fetching := fetching s @ [(index_map url ''url'', index_map url ''filepath'')]\<rparr>)"
| download_returns:
    "status s = Running \<Longrightarrow> fetching s = before @ (fileUrl, filePath) # after \<Longrightarrow>
     DownloadURL e fileUrl filePath cookies headers params (the_world s) = (Returned r, w') \<Longrightarrow>
     step e cookies headers params s
       (s\<lparr>fetching := before @ after, ticking := ticking s + 1, the_world := w'\<rparr>)"
| download_panics:
    "status s = Running \<Longrightarrow> fetching s = before @ (fileUrl, filePath) # after \<Longrightarrow>
     DownloadURL e fileUrl filePath cookies headers params (the_world s) = (Panicked p, w') \<Longrightarrow>
     step e cookies headers params s (s\<lparr>the_world := w', status := Crashed p\<rparr>)"
| tick:
    "status s = Running \<Longrightarrow> 0 < ticking s \<Longrightarrow>
     step e cookies headers params s
       (s\<lparr>ticking := ticking s - 1, bar := bar_Add (bar s) 1, releasing := releasing s + 1\<rparr>)"
| release:
    "status s = Running \<Longrightarrow> 0 < releasing s \<Longrightarrow>
     step e cookies headers params s
       (s\<lparr>releasing := releasing s - 1, queue := queue s - 1, finishing := finishing s + 1\<rparr>)"
| wg_done:
    "status s = Running \<Longrightarrow> 0 < finishing s \<Longrightarrow>
     step e cookies headers params s (s\<lparr>finishing := finishing s - 1, wg := wg s - 1\<rparr>)"
| wait_returns:
    "status s = Running \<Longrightarrow> pending s = [] \<Longrightarrow> wg s = 0 \<Longrightarrow>
     step e cookies headers params s (s\<lparr>status := Finished\<rparr>)"

text \<open>
  The states a call of \<^verbatim>\<open>DownloadURLsParallel\<close> can be in, under any scheduling of
  its goroutines.
\<close>

definition reachable ::
  "env \<Rightarrow> (string \<times> string) list list \<Rightarrow> int \<Rightarrow> cookie list \<Rightarrow> (string \<times> string) list \<Rightarrow>
   (string \<times> string) list \<Rightarrow> world \<Rightarrow> pstate \<Rightarrow> bool" where
  "reachable e urls maxConcurrency cookies headers params w s =
     rtranclp (step e cookies headers params) (init_state urls maxConcurrency w) s"

section \<open>The spec's wording, where it differs from the code\<close>


text \<open>
  The spec's words for the parameters: a supplied parameter overwrites the parameter of
  the same key (what \<^verbatim>\<open>Values.Set\<close> does).
\<close>

definition spec_merge_params :: "(string \<times> string) list \<Rightarrow> Values \<Rightarrow> Values" where
  "spec_merge_params params query = fold (\<lambda>(key, val) q. q(key := [val])) params query"

section \<open>Concrete environments\<close>

definition example_response :: "string \<Rightarrow> response" where
  "example_response u = \<lparr> StatusCode = 200, RequestURL = u, Body = ''DATA'' \<rparr>"

text \<open>
  A network that answers every request with status 200 and four bytes, for a URL that has
  not been redirected; \<^verbatim>\<open>http.NewRequest\<close> refuses the URL \<^verbatim>\<open>%\<close>.
\<close>

definition example_env :: env where
  "example_env =
     \<lparr> RETRY_COUNTER = 3,
       USER_AGENT = ''agent'',
       NewRequest_err = (\<lambda>method url. if url = ''%'' then Some (InvalidRequest url) else None),
       URL_Query =
         (\<lambda>url key. if url = ''https://host/f?a=1'' \<and> key = ''a'' then [''1''] else []),
       client_Do = (\<lambda>timeout n req. Inr (example_response (URL req))),
       os_Create = (\<lambda>path. None),
       io_Copy = (\<lambda>path body. None) \<rparr>"

text \<open>A network on which every attempt fails with a transport error.\<close>

definition offline_env :: env where
  "offline_env =
     example_env\<lparr>client_Do := (\<lambda>timeout n req. Inl (TransportError ''connection refused''))\<rparr>"


definition empty_world :: world where
  "empty_world = \<lparr> files = Map.empty, mkdirs = [], sent = [], slept = 0, logged = [] \<rparr>"

definition example_cookie :: cookie where
  "example_cookie = \<lparr> Name = ''session'', Value = ''secret'', Domain_c = ''example.com'' \<rparr>"

definition other_cookie :: cookie where
  "other_cookie = \<lparr> Name = ''id'', Value = ''7'', Domain_c = ''example.org'' \<rparr>"


definition stub_world :: world where
  "stub_world = empty_world\<lparr>files := [''/out/report.pdf'' \<mapsto> []]\<rparr>"




text \<open>
  What holds in every state of a call on \<open>k\<close> jobs: each job is still to be started, or
  in its download, or waiting for its tick, or counted by the bar; the wait group counts
  the goroutines that have not finished, the channel holds one value for each goroutine
  that has not received from it, and the function has returned only with the loop over
  and the wait group at zero.
\<close>

definition accounted :: "nat \<Rightarrow> pstate \<Rightarrow> bool" where
  "accounted k s =
     (bar_total (bar s) = k \<and>
      bar_count (bar s) + ticking s + length (fetching s) + length (pending s) = k \<and>
      wg s = length (fetching s) + ticking s + releasing s + finishing s \<and>
      queue s = length (fetching s) + ticking s + releasing s \<and>
      (status s = Running \<longrightarrow> int (queue s) \<le> capacity s) \<and>
      (status s = Finished \<longrightarrow> pending s = [] \<and> wg s = 0))"

text \<open>
  A number that every step of a call makes smaller: no call runs forever.
\<close>

definition weight :: "pstate \<Rightarrow> nat" where
  "weight s =
     5 * length (pending s) + 4 * length (fetching s) + 3 * ticking s + 2 * releasing s +
     finishing s + (if status s = Running then 1 else 0)"

section \<open>Facts about the loop and the request\<close>

lemma Contains_iff_sublist: "Contains s sub \<longleftrightarrow> (\<exists>before after. s = before @ sub @ after)"
proof -
  have "Contains s sub \<longleftrightarrow> sublist sub s"
    by (induction s) (auto simp: sublist_Cons_right)
  then show ?thesis by (simp add: sublist_def)
qed

lemma retry_loop_Suc_cases:
  "(\<exists>resp. retry_loop e timeout req checkStatus (Suc n) w = (Some resp, w\<lparr>sent := sent w @ [req]\<rparr>)) \<or>
   retry_loop e timeout req checkStatus (Suc n) w =
     retry_loop e timeout req checkStatus n (w\<lparr>sent := sent w @ [req], slept := slept w + 1\<rparr>)"
  by (simp add: Let_def split: sum.split)

lemma retry_loop_sent:
  "\<exists>k\<le>n. sent (snd (retry_loop e timeout req checkStatus n w)) = sent w @ replicate k req"
proof (induction n arbitrary: w)
  case 0
  show ?case by simp
next
  case (Suc n)
  let ?w2 = "w\<lparr>sent := sent w @ [req], slept := slept w + 1\<rparr>"
  from Suc.IH [of ?w2] obtain k where k: "k \<le> n"
    "sent (snd (retry_loop e timeout req checkStatus n ?w2)) = sent ?w2 @ replicate k req"
    by blast
  from retry_loop_Suc_cases [of e timeout req checkStatus n w] show ?case
  proof (elim disjE exE)
    fix resp
    assume "retry_loop e timeout req checkStatus (Suc n) w = (Some resp, w\<lparr>sent := sent w @ [req]\<rparr>)"
    then have "sent (snd (retry_loop e timeout req checkStatus (Suc n) w)) = sent w @ replicate (Suc 0) req"
      by simp
    then show ?thesis by (intro exI [of _ "Suc 0"]) simp
  next
    assume "retry_loop e timeout req checkStatus (Suc n) w = retry_loop e timeout req checkStatus n ?w2"
    with k have "sent (snd (retry_loop e timeout req checkStatus (Suc n) w)) = sent w @ replicate (Suc k) req"
      by (simp add: replicate_app_Cons_same)
    with k(1) show ?thesis by (intro exI [of _ "Suc k"]) simp
  qed
qed

lemma retry_loop_frame:
  "files (snd (retry_loop e timeout req checkStatus n w)) = files w \<and>
   mkdirs (snd (retry_loop e timeout req checkStatus n w)) = mkdirs w \<and>
   logged (snd (retry_loop e timeout req checkStatus n w)) = logged w"
proof (induction n arbitrary: w)
  case 0
  show ?case by simp
next
  case (Suc n)
  from retry_loop_Suc_cases [of e timeout req checkStatus n w] show ?case
  proof (elim disjE exE)
    fix resp
    assume "retry_loop e timeout req checkStatus (Suc n) w = (Some resp, w\<lparr>sent := sent w @ [req]\<rparr>)"
    then show ?thesis by simp
  next
    assume "retry_loop e timeout req checkStatus (Suc n) w =
      retry_loop e timeout req checkStatus n (w\<lparr>sent := sent w @ [req], slept := slept w + 1\<rparr>)"
    then show ?thesis
      using Suc.IH [of "w\<lparr>sent := sent w @ [req], slept := slept w + 1\<rparr>"] by simp
  qed
qed


lemma CallRequest_files: "files (snd (CallRequest e method url timeout cookies hs ps cs w)) = files w"
  using retry_loop_frame [of e timeout "build_request e method url cookies hs ps" cs "RETRY_COUNTER e" w]
  by (auto simp: CallRequest_def Let_def split: option.split prod.split)

lemma CallRequest_mkdirs: "mkdirs (snd (CallRequest e method url timeout cookies hs ps cs w)) = mkdirs w"
  using retry_loop_frame [of e timeout "build_request e method url cookies hs ps" cs "RETRY_COUNTER e" w]
  by (auto simp: CallRequest_def Let_def split: option.split prod.split)

lemma CallRequest_sent:
  "\<exists>k. sent (snd (CallRequest e method url timeout cookies hs ps cs w)) =
        sent w @ replicate k (build_request e method url cookies hs ps)"
proof (cases "NewRequest_err e method url")
  case (Some err)
  then show ?thesis by (intro exI [of _ 0]) (simp add: CallRequest_def)
next
  case None
  obtain k where "sent (snd (retry_loop e timeout (build_request e method url cookies hs ps) cs (RETRY_COUNTER e) w))
      = sent w @ replicate k (build_request e method url cookies hs ps)"
    using retry_loop_sent by blast
  with None show ?thesis
    by (intro exI [of _ k]) (auto simp: CallRequest_def Let_def split: option.split prod.split)
qed


lemma CallRequest_error_is_NewRequest's:
  "snd (fst (CallRequest e method url timeout cookies hs ps cs w)) = NewRequest_err e method url"
  by (auto simp: CallRequest_def Let_def split: option.split prod.split)




lemma resolve_path_frame:
  "files (snd (resolve_path filePath res w)) = files w \<and>
   sent (snd (resolve_path filePath res w)) = sent w \<and>
   logged (snd (resolve_path filePath res w)) = logged w"
  by (simp add: resolve_path_def MkdirAll_def Let_def split: sum.split)


lemma DownloadURL_dispatched:
  assumes "CallRequest e ''GET'' fileURL (25 * 60) cookies headers params True w = ((Some res, None), w1)"
  shows "DownloadURL e fileURL filePath cookies headers params w =
    (case resolve_path filePath res w1 of
       (Inl p, w2) \<Rightarrow> (Panicked p, w2)
     | (Inr path, w2) \<Rightarrow> write_body e fileURL res path w2)"
  using assms by (simp add: DownloadURL_def)



lemma example_dispatch:
  "NewRequest_err example_env ''GET'' u = None \<Longrightarrow>
   CallRequest example_env ''GET'' u (25 * 60) [] [] [] True w =
     ((Some (example_response u), None),
      w\<lparr>sent := sent w @ [build_request example_env ''GET'' u [] [] []]\<rparr>)"
  by (simp add: CallRequest_def example_env_def numeral_3_eq_3 Let_def example_response_def build_request_def)


lemma report_path: "resolve_path ''/out/report.PDF'' res w = (Inr ''/out/report.pdf'', MkdirAll ''/out'' w)"
  by (simp add: resolve_path_def Ext_def RemoveExtFromFilename_def ToLower_def lower_byte_def
      isUpper_def Dir_def Clean_def Let_def)




lemma fold_Add_distinct:
  "distinct (map fst params) \<Longrightarrow>
   fold (\<lambda>(k, v) q. Add q k v) params query key =
     query key @ (case map_of params key of None \<Rightarrow> [] | Some v \<Rightarrow> [v])"
proof (induction params arbitrary: query)
  case Nil
  show ?case by simp
next
  case (Cons p ps)
  obtain k v where p: "p = (k, v)" by (cases p)
  from Cons.prems p have d: "distinct (map fst ps)" and nk: "k \<notin> fst ` set ps"
    by auto
  show ?case
  proof (cases "key = k")
    case True
    then have "map_of ps key = None"
      using nk by (simp add: map_of_eq_None_iff)
    with True p Cons.IH [OF d, of "Add query k v"] show ?thesis
      by (simp add: Add_def)
  next
    case False
    with p Cons.IH [OF d, of "Add query k v"] show ?thesis
      by (simp add: Add_def)
  qed
qed

section \<open>CallRequest: the result when every attempt fails\<close>

text \<open>
  C1. Claimed: when all attempts are used up, \<^verbatim>\<open>CallRequest\<close> returns the transport
  error of the last failed attempt together with a nil response, after logging a
  non-fatal failure. On a network where every attempt fails with a transport error, with
  three attempts allowed: the third attempt fails with that error, three requests are
  sent, the failure is logged, and the function returns neither a response nor an error.
  The error of an attempt is a variable of the loop body; the \<open>err\<close> that is logged and
  returned after the loop is the one of line 22.
\<close>

theorem CallRequest_exhausted_returns_nil_error:
  "client_Do offline_env 1500 2 (build_request offline_env ''GET'' ''https://host/f'' [] [] []) =
     Inl (TransportError ''connection refused'') \<and>
   fst (CallRequest offline_env ''GET'' ''https://host/f'' 1500 [] [] [] True empty_world) =
     (None, None) \<and>
   length (sent (snd (CallRequest offline_env ''GET'' ''https://host/f'' 1500 [] [] [] True
     empty_world))) = 3 \<and>
   logged (snd (CallRequest offline_env ''GET'' ''https://host/f'' 1500 [] [] [] True
     empty_world)) = [LogError None (FailedRequest ''https://host/f'' 3) False]"
  by (simp add: CallRequest_def offline_env_def example_env_def empty_world_def
      build_request_def numeral_3_eq_3 Let_def)

section \<open>DownloadURL: a job whose dispatch fails\<close>

text \<open>
  C2. Claimed: for a job whose dispatch fails on every attempt, \<^verbatim>\<open>DownloadURL\<close> logs the
  failure, creates or modifies no file and returns to its caller, so that the other jobs
  of the batch go on. On the network where every attempt fails, the failure is logged and
  no file is created, but the function does not return: \<^verbatim>\<open>CallRequest\<close> has handed it a
  nil response with a nil error, and line 82 panics reading \<^verbatim>\<open>res.Body\<close>.
\<close>

theorem DownloadURL_exhausted_panics:
  "fst (DownloadURL offline_env ''https://host/f'' ''/out/'' [] [] [] empty_world) =
     Panicked NilPointerDereference \<and>
   files (snd (DownloadURL offline_env ''https://host/f'' ''/out/'' [] [] [] empty_world)) =
     Map.empty \<and>
   logged (snd (DownloadURL offline_env ''https://host/f'' ''/out/'' [] [] [] empty_world)) =
     [LogError None (FailedRequest ''https://host/f'' 3) False]"
  by (simp add: DownloadURL_def CallRequest_def offline_env_def example_env_def empty_world_def
      build_request_def numeral_3_eq_3 Let_def)

section \<open>CallRequest: cookies\<close>

text \<open>
  C6. Every request that \<^verbatim>\<open>CallRequest\<close> sends carries a cookie of the cookie set if
  and only if the cookie's domain occurs as a substring of the URL the function was
  called with.
\<close>

theorem cookie_attached_iff_domain_in_url:
  assumes "req \<in> set (sent (snd (CallRequest e method url timeout cookies additionalHeaders
      params checkStatus w)))"
    and "req \<notin> set (sent w)"
  shows "c \<in> set (Cookies req) \<longleftrightarrow>
         c \<in> set cookies \<and> (\<exists>before after. url = before @ Domain_c c @ after)"
proof -
  obtain k where "sent (snd (CallRequest e method url timeout cookies additionalHeaders params
      checkStatus w)) =
        sent w @ replicate k (build_request e method url cookies additionalHeaders params)"
    using CallRequest_sent by blast
  with assms have "req = build_request e method url cookies additionalHeaders params"
    by auto
  then show ?thesis
    by (simp add: build_request_def Contains_iff_sublist)
qed

text \<open>
  The cookie for \<^verbatim>\<open>example.com\<close> goes out with a request to \<^verbatim>\<open>notexample.com\<close>; the
  cookie for \<^verbatim>\<open>example.org\<close> does not.
\<close>

theorem cookie_attached_iff_domain_in_url_witness:
  "build_request example_env ''GET'' ''https://notexample.com/x''
       [example_cookie, other_cookie] [] []
     \<in> set (sent (snd (CallRequest example_env ''GET'' ''https://notexample.com/x'' 10
          [example_cookie, other_cookie] [] [] False empty_world))) \<and>
   build_request example_env ''GET'' ''https://notexample.com/x''
       [example_cookie, other_cookie] [] []
     \<notin> set (sent empty_world) \<and>
   example_cookie \<in> set (Cookies (build_request example_env ''GET'' ''https://notexample.com/x''
       [example_cookie, other_cookie] [] [])) \<and>
   other_cookie \<notin> set (Cookies (build_request example_env ''GET'' ''https://notexample.com/x''
       [example_cookie, other_cookie] [] []))"
proof -
  let ?req = "build_request example_env ''GET'' ''https://notexample.com/x''
    [example_cookie, other_cookie] [] []"
  let ?w = "snd (CallRequest example_env ''GET'' ''https://notexample.com/x'' 10
    [example_cookie, other_cookie] [] [] False empty_world)"
  have "sent ?w = [?req]"
    by (simp add: CallRequest_def example_env_def empty_world_def numeral_3_eq_3 Let_def)
  then have a: "?req \<in> set (sent ?w)" by simp
  have b: "?req \<notin> set (sent empty_world)" by (simp add: empty_world_def)
  have "''https://notexample.com/x'' = ''https://not'' @ Domain_c example_cookie @ ''/x''"
    by (simp add: example_cookie_def)
  then have c: "\<exists>before after.
      ''https://notexample.com/x'' = before @ Domain_c example_cookie @ after"
    by blast
  have d: "\<not> (\<exists>before after.
      ''https://notexample.com/x'' = before @ Domain_c other_cookie @ after)"
    using Contains_iff_sublist [of "''https://notexample.com/x''" "Domain_c other_cookie"]
    by (simp add: other_cookie_def)
  show ?thesis
    using cookie_attached_iff_domain_in_url [OF a b, of example_cookie]
      cookie_attached_iff_domain_in_url [OF a b, of other_cookie] a b c d
    by simp
qed

section \<open>DownloadURL: a destination that is already there\<close>





section \<open>DownloadURL: the path of the file\<close>







section \<open>DownloadURL: a write that fails, and an empty file\<close>



text \<open>
  C10. For a job whose dispatch returns a response and whose resolved destination holds
  an empty file, \<^verbatim>\<open>DownloadURL\<close> does not skip the download: when the file can be
  created and the copy succeeds, the function returns nil and the file holds the body of
  the response.
\<close>

theorem empty_file_is_overwritten:
  assumes "CallRequest e ''GET'' fileURL (25 * 60) cookies headers params True w = ((Some res, None), w1)"
    and "resolve_path filePath res w1 = (Inr path, w2)"
    and "files w path = Some []"
    and "os_Create e path = None"
    and "io_Copy e path (Body res) = None"
  shows "fst (DownloadURL e fileURL filePath cookies headers params w) = Returned None \<and>
         files (snd (DownloadURL e fileURL filePath cookies headers params w)) =
           (files w)(path \<mapsto> Body res)"
proof -
  have f1: "files w1 = files w"
    using CallRequest_files [of e "''GET''" fileURL "25 * 60" cookies headers params True w] assms(1)
    by simp
  have f2: "files w2 = files w1"
    using resolve_path_frame [of filePath res w1] assms(2) by simp
  have "fst (CheckIfFileIsEmpty path w2)"
    using assms(3) f1 f2 by (simp add: CheckIfFileIsEmpty_def)
  then have "write_body e fileURL res path w2 =
      (Returned None, w2\<lparr>files := (files w2)(path \<mapsto> Body res)\<rparr>)"
    using assms(4,5) by (simp add: write_body_def)
  then have "DownloadURL e fileURL filePath cookies headers params w =
      (Returned None, w2\<lparr>files := (files w2)(path \<mapsto> Body res)\<rparr>)"
    using DownloadURL_dispatched [OF assms(1), of filePath] assms(2) by simp
  then show ?thesis using f1 f2 by simp
qed

theorem empty_file_is_overwritten_witness:
  "CallRequest example_env ''GET'' ''https://host/x.bin'' (25 * 60) [] [] [] True stub_world =
     ((Some (example_response ''https://host/x.bin''), None),
      stub_world\<lparr>sent := sent stub_world @
        [build_request example_env ''GET'' ''https://host/x.bin'' [] [] []]\<rparr>) \<and>
   fst (resolve_path ''/out/report.PDF'' (example_response ''https://host/x.bin'') stub_world) =
     Inr ''/out/report.pdf'' \<and>
   files stub_world ''/out/report.pdf'' = Some [] \<and>
   os_Create example_env ''/out/report.pdf'' = None \<and>
   io_Copy example_env ''/out/report.pdf'' (Body (example_response ''https://host/x.bin'')) = None \<and>
   fst (DownloadURL example_env ''https://host/x.bin'' ''/out/report.PDF'' [] [] [] stub_world) =
     Returned None \<and>
   files (snd (DownloadURL example_env ''https://host/x.bin'' ''/out/report.PDF'' [] [] []
     stub_world)) ''/out/report.pdf'' = Some ''DATA''"
proof -
  have n: "NewRequest_err example_env ''GET'' ''https://host/x.bin'' = None"
    by (simp add: example_env_def)
  have k: "files stub_world ''/out/report.pdf'' = Some []"
    by (simp add: stub_world_def empty_world_def)
  have c: "os_Create example_env ''/out/report.pdf'' = None"
    by (simp add: example_env_def)
  have i: "io_Copy example_env ''/out/report.pdf'' (Body (example_response ''https://host/x.bin'')) = None"
    by (simp add: example_env_def)
  have b: "Body (example_response ''https://host/x.bin'') = ''DATA''"
    by (simp add: example_response_def)
  show ?thesis
    using empty_file_is_overwritten [OF example_dispatch [OF n] report_path k c i]
      example_dispatch [OF n, of stub_world] k c i b
    by (simp add: report_path)
qed

section \<open>CallRequest: query parameters\<close>

text \<open>
  C7, as claimed: a supplied parameter overwrites the parameter of the same key that the
  URL already has. The code calls \<^verbatim>\<open>query.Add\<close>, which appends: for a URL with the query
  \<^verbatim>\<open>a=1\<close> and the parameter \<^verbatim>\<open>a\<close> with value \<^verbatim>\<open>2\<close>, overwriting would leave the
  value \<^verbatim>\<open>2\<close> alone, and the request that is sent has both values for \<^verbatim>\<open>a\<close>.
\<close>

theorem params_overwrite_counterexample:
  "URL_Query example_env ''https://host/f?a=1'' ''a'' = [''1''] \<and>
   spec_merge_params [(''a'', ''2'')] (URL_Query example_env ''https://host/f?a=1'') ''a'' = [''2''] \<and>
   map (\<lambda>req. map_option (\<lambda>query. query ''a'') (RawQuery req))
     (sent (snd (CallRequest example_env ''GET'' ''https://host/f?a=1'' 10 [] [] [(''a'', ''2'')]
        False empty_world))) = [Some [''1'', ''2'']]"
  by (simp add: CallRequest_def example_env_def empty_world_def numeral_3_eq_3 Let_def
      build_request_def Add_def spec_merge_params_def)

text \<open>
  C7, amended: when a non-empty parameter map is supplied, the query of every request
  that \<^verbatim>\<open>CallRequest\<close> sends is the encoding of the following values: for every key, the
  values the URL's query has for it, followed by the supplied value when the key is among
  the parameters. Nothing that the parsed query of the URL has is dropped or overwritten.
\<close>

theorem params_appended_to_query:
  assumes "params \<noteq> []" and "distinct (map fst params)"
    and "req \<in> set (sent (snd (CallRequest e method url timeout cookies additionalHeaders
      params checkStatus w)))"
    and "req \<notin> set (sent w)"
  shows "\<exists>query. RawQuery req = Some query \<and>
           (\<forall>key. query key =
              URL_Query e url key @ (case map_of params key of None \<Rightarrow> [] | Some v \<Rightarrow> [v]))"
proof -
  obtain k where "sent (snd (CallRequest e method url timeout cookies additionalHeaders params
      checkStatus w)) =
        sent w @ replicate k (build_request e method url cookies additionalHeaders params)"
    using CallRequest_sent by blast
  with assms(3,4) have "req = build_request e method url cookies additionalHeaders params"
    by auto
  then have "RawQuery req = Some (fold (\<lambda>(key, val) query. Add query key val) params (URL_Query e url))"
    using assms(1) by (simp add: build_request_def)
  then show ?thesis
    using fold_Add_distinct [OF assms(2)] by simp
qed

theorem params_appended_to_query_witness:
  "[(''a'', ''2''), (''b'', ''3'')] \<noteq> [] \<and> distinct (map fst [(''a'', ''2''), (''b'', ''3'')]) \<and>
   build_request example_env ''GET'' ''https://host/f?a=1'' [] [] [(''a'', ''2''), (''b'', ''3'')]
     \<in> set (sent (snd (CallRequest example_env ''GET'' ''https://host/f?a=1'' 10 [] []
          [(''a'', ''2''), (''b'', ''3'')] False empty_world))) \<and>
   build_request example_env ''GET'' ''https://host/f?a=1'' [] [] [(''a'', ''2''), (''b'', ''3'')]
     \<notin> set (sent empty_world) \<and>
   (\<exists>query. RawQuery (build_request example_env ''GET'' ''https://host/f?a=1'' [] []
        [(''a'', ''2''), (''b'', ''3'')]) = Some query \<and>
      query ''a'' = [''1'', ''2''] \<and> query ''b'' = [''3''] \<and> query ''c'' = [])"
proof -
  let ?ps = "[(''a'', ''2''), (''b'', ''3'')]"
  let ?req = "build_request example_env ''GET'' ''https://host/f?a=1'' [] [] ?ps"
  let ?w = "snd (CallRequest example_env ''GET'' ''https://host/f?a=1'' 10 [] [] ?ps False empty_world)"
  have ne: "?ps \<noteq> []" and d: "distinct (map fst ?ps)" by simp_all
  have "sent ?w = [?req]"
    by (simp add: CallRequest_def example_env_def empty_world_def numeral_3_eq_3 Let_def)
  then have a: "?req \<in> set (sent ?w)" by simp
  have b: "?req \<notin> set (sent empty_world)" by (simp add: empty_world_def)
  obtain query where q: "RawQuery ?req = Some query"
    "\<forall>key. query key = URL_Query example_env ''https://host/f?a=1'' key @
        (case map_of ?ps key of None \<Rightarrow> [] | Some v \<Rightarrow> [v])"
    using params_appended_to_query [OF ne d a b] by blast
  have "query ''a'' = [''1'', ''2'']" "query ''b'' = [''3'']" "query ''c'' = []"
    using q(2) by (simp_all add: example_env_def)
  with q(1) a b ne d show ?thesis by blast
qed

section \<open>DownloadURLsParallel: the progress bar\<close>

lemma accounted_init: "accounted (length urls) (init_state urls maxConcurrency w)"
  by (simp add: accounted_def init_state_def GetProgressBar_def Let_def)

lemma accounted_step:
  assumes "step e cookies headers params s s'" and "accounted k s"
  shows "accounted k s'"
  using assms by (cases rule: step.cases) (auto simp: accounted_def bar_Add_def)

lemma accounted_reachable:
  assumes "rtranclp (step e cookies headers params) (init_state urls maxConcurrency w) s"
  shows "accounted (length urls) s"
  using assms
proof (induction rule: rtranclp_induct)
  case base
  show ?case by (rule accounted_init)
next
  case (step s s')
  from step.hyps(2) step.IH show ?case by (rule accounted_step)
qed


lemma capacity_step:
  "step e cookies headers params s s' \<Longrightarrow> capacity s' = capacity s"
  by (cases rule: step.cases) auto

lemma in_flight_bounded:
  assumes "reachable e urls maxConcurrency cookies headers params w s"
    and "status s = Running"
  shows "int (length (fetching s)) \<le> maxConcurrency"
proof -
  have r: "rtranclp (step e cookies headers params) (init_state urls maxConcurrency w) s"
    using assms(1) by (simp add: reachable_def)
  then have "capacity s = capacity (init_state urls maxConcurrency w)"
    by (induction rule: rtranclp_induct) (simp_all add: capacity_step)
  then have "capacity s \<le> maxConcurrency"
    by (simp add: init_state_def Let_def)
  moreover have "int (length (fetching s)) \<le> capacity s"
    using accounted_reachable [OF r] assms(2) by (auto simp: accounted_def)
  ultimately show ?thesis by simp
qed

text \<open>
  Every step lowers the weight of the state, and with room for at least one download a
  call that has neither returned nor ended in a panic can take a step: the call ends, by
  returning or by a panic.
\<close>

lemma step_weight:
  "step e cookies headers params s s' \<Longrightarrow> weight s' < weight s"
  by (cases rule: step.cases) (auto simp: weight_def)

lemma step_enabled:
  assumes "accounted k s" and "status s = Running"
    and "pending s = [] \<or> 0 < capacity s"
  shows "\<exists>s'. step e cookies headers params s s'"
proof -
  consider "0 < finishing s" | "0 < releasing s" | "0 < ticking s" | "fetching s \<noteq> []"
    | "finishing s = 0" "releasing s = 0" "ticking s = 0" "fetching s = []"
    by auto
  then show ?thesis
  proof cases
    case 1
    with assms(2) show ?thesis by (blast intro: wg_done)
  next
    case 2
    with assms(2) show ?thesis by (blast intro: release)
  next
    case 3
    with assms(2) show ?thesis by (blast intro: tick)
  next
    case 4
    then obtain fileUrl filePath rest where f: "fetching s = [] @ (fileUrl, filePath) # rest"
      by (cases "fetching s") auto
    obtain result w' where d:
      "DownloadURL e fileUrl filePath cookies headers params (the_world s) = (result, w')"
      by (cases "DownloadURL e fileUrl filePath cookies headers params (the_world s)")
    show ?thesis
    proof (cases result)
      case (Returned r)
      with assms(2) f d show ?thesis by (blast intro: download_returns)
    next
      case (Panicked p)
      with assms(2) f d show ?thesis by (blast intro: download_panics)
    qed
  next
    case 5
    with assms(1) have z: "wg s = 0" "queue s = 0"
      by (simp_all add: accounted_def)
    show ?thesis
    proof (cases "pending s")
      case Nil
      with assms(2) z show ?thesis by (blast intro: wait_returns)
    next
      case (Cons url rest)
      with assms(3) z have "int (queue s) < capacity s" by simp
      with assms(2) Cons show ?thesis by (blast intro: spawn)
    qed
  qed
qed

lemma capacity_reachable:
  assumes "rtranclp (step e cookies headers params) (init_state urls maxConcurrency w) s"
  shows "capacity s = capacity (init_state urls maxConcurrency w)"
  using assms by (induction rule: rtranclp_induct) (simp_all add: capacity_step)

lemma no_deadlock:
  assumes "reachable e urls maxConcurrency cookies headers params w s"
    and "status s = Running" and "1 \<le> maxConcurrency"
  shows "\<exists>s'. step e cookies headers params s s'"
proof -
  have r: "rtranclp (step e cookies headers params) (init_state urls maxConcurrency w) s"
    using assms(1) by (simp add: reachable_def)
  have a: "accounted (length urls) s"
    using r by (rule accounted_reachable)
  have "pending s = [] \<or> 0 < capacity s"
  proof (cases "pending s")
    case Nil
    then show ?thesis by simp
  next
    case (Cons url rest)
    with a have "0 < length urls" by (auto simp: accounted_def)
    with assms(3) have "0 < capacity (init_state urls maxConcurrency w)"
      by (simp add: init_state_def Let_def)
    with capacity_reachable [OF r] show ?thesis by simp
  qed
  with a assms(2) show ?thesis by (rule step_enabled)
qed






end
